theory Spec2Isabelle
  imports Complex_Main "HOL-Library.AList"
begin

section \<open>Entities, spans and the recognizers\<close>

text \<open>
  An extracted entity is the Python dict \<^verbatim>\<open>{"entity": ..., "type": ...}\<close>.
  A span is the pair \<^verbatim>\<open>(start_char, end_char)\<close> of Python ints.
\<close>

record entity =
  entity :: string
  etype :: string

type_synonym span = "int \<times> int"

text \<open>
  The overlap test of \<^verbatim>\<open>ner.py\<close>, line 71:
  \<^verbatim>\<open>not (span[1] <= proc_span[0] or span[0] >= proc_span[1])\<close>.
\<close>

definition overlaps :: "span \<Rightarrow> span \<Rightarrow> bool" where
  "overlaps sp proc_span = (\<not> (snd sp \<le> fst proc_span \<or> fst sp \<ge> snd proc_span))"

text \<open>
  One element of spaCy's \<^verbatim>\<open>doc.ents\<close>: the fields the code reads
  (\<^verbatim>\<open>start_char\<close>, \<^verbatim>\<open>end_char\<close>, \<^verbatim>\<open>label_\<close>, \<^verbatim>\<open>text\<close>).
\<close>

record ent =
  start_char :: int
  end_char :: int
  label :: string
  ent_text :: string

datatype error =
    OSError
  | FileNotFoundError
  | FileExistsError
  | NotADirectoryError
  | IsADirectoryError
  | JSONDecodeError
  | RuntimeError

text \<open>
  A loaded spaCy pipeline is used only as \<^verbatim>\<open>nlp(text).ents\<close>; calling it may raise.
  The world holds what the code reads from outside: \<^verbatim>\<open>spacy.load\<close> and
  \<^verbatim>\<open>Path(p).exists()\<close>. Both may raise: \<^verbatim>\<open>pathlib\<close> turns only a missing path into
  \<^verbatim>\<open>False\<close> and raises other errors of the operating system, such as a name that is too
  long or a directory that may not be searched.
\<close>

type_synonym nlp = "string \<Rightarrow> error + ent list"

record world =
  spacy_load :: "string \<Rightarrow> error + nlp"
  path_exists :: "string \<Rightarrow> error + bool"

section \<open>The lexicon pass: word-bounded, case-insensitive literal search\<close>

text \<open>
  \<^verbatim>\<open>re.compile(r'\b' + term + r'\b', re.IGNORECASE).finditer(text)\<close> for a term made of
  letters and spaces. A text is a list of code points below 256; on these, \<^verbatim>\<open>\w\<close> is
  Python's \<^verbatim>\<open>str.isalnum\<close> or the underscore, and ignoring case identifies exactly
  \<^verbatim>\<open>A-Z\<close> with \<^verbatim>\<open>a-z\<close> for the letters of the terms.
\<close>

definition is_word :: "char \<Rightarrow> bool" where
  "is_word c =
     (let n = of_char c :: nat in
        (48 \<le> n \<and> n \<le> 57) \<or> (65 \<le> n \<and> n \<le> 90) \<or> (97 \<le> n \<and> n \<le> 122) \<or> n = 95
        \<or> n = 170 \<or> n = 178 \<or> n = 179 \<or> n = 181 \<or> n = 185 \<or> n = 186
        \<or> (188 \<le> n \<and> n \<le> 190) \<or> (192 \<le> n \<and> n \<le> 214) \<or> (216 \<le> n \<and> n \<le> 246)
        \<or> (248 \<le> n \<and> n \<le> 255))"

definition lower :: "char \<Rightarrow> char" where
  "lower c = (let n = of_char c :: nat in if 65 \<le> n \<and> n \<le> 90 then char_of (n + 32) else c)"

text \<open>\<^verbatim>\<open>\b\<close> between two neighbours; the outside of the text counts as a non-word.\<close>

definition boundary :: "char option \<Rightarrow> char option \<Rightarrow> bool" where
  "boundary l r =
     ((case l of None \<Rightarrow> False | Some c \<Rightarrow> is_word c) \<noteq> (case r of None \<Rightarrow> False | Some c \<Rightarrow> is_word c))"

definition nth_opt :: "'a list \<Rightarrow> nat \<Rightarrow> 'a option" where
  "nth_opt xs i = (if i < length xs then Some (xs ! i) else None)"

text \<open>
  Does the pattern match with its first character at \<open>rest\<close>, the text from the current
  position on, when \<open>prev\<close> is the character before it?
\<close>

definition match_here :: "string \<Rightarrow> char option \<Rightarrow> string \<Rightarrow> bool" where
  "match_here term prev rest =
     (let n = length term in
        n \<le> length rest
        \<and> map lower (take n rest) = map lower term
        \<and> boundary prev (nth_opt rest 0)
        \<and> boundary (if n = 0 then prev else nth_opt rest (n - 1)) (nth_opt rest n))"

record rmatch =
  m_start :: int
  m_end :: int
  m_group :: string

text \<open>
  The scan goes left to right; after a match it resumes at the end of the match
  (\<open>skip\<close> counts the characters of the current match still to pass).
\<close>

fun scan :: "string \<Rightarrow> char option \<Rightarrow> nat \<Rightarrow> nat \<Rightarrow> string \<Rightarrow> rmatch list" where
  "scan term prev i skip [] = []"
| "scan term prev i skip (c # cs) =
     (if skip > 0 then scan term (Some c) (i + 1) (skip - 1) cs
      else if match_here term prev (c # cs)
      then \<lparr>m_start = int i, m_end = int (i + length term), m_group = take (length term) (c # cs)\<rparr>
             # scan term (Some c) (i + 1) (length term - 1) cs
      else scan term (Some c) (i + 1) 0 cs)"

definition finditer :: "string \<Rightarrow> string \<Rightarrow> rmatch list" where
  "finditer term text = scan term None 0 0 text"

definition legal_terms :: "string list" where
  "legal_terms =
     [''trustee'', ''beneficiary'', ''executor'', ''grantor'', ''testator'',
      ''settlor'', ''fiduciary'', ''heir'', ''legatee'', ''probate'', ''bequest'',
      ''devise'', ''legacy'', ''will'', ''trust'', ''estate'', ''power of attorney'']"

section \<open>extract_entities (ner.py)\<close>

text \<open>
  The loop state is the pair of locals \<^verbatim>\<open>entities\<close> and \<^verbatim>\<open>processed_spans\<close>.
  The function returns dicts without positions; to speak about the spans of what it returns,
  each appended dict is kept together with the span it was appended for. The function's
  value is the list of second components.
\<close>

record st =
  entities :: "(span \<times> entity) list"
  processed_spans :: "span set"

definition init_st :: st where
  "init_st = \<lparr>entities = [], processed_spans = {}\<rparr>"

text \<open>The body of \<^verbatim>\<open>for ent in doc.ents\<close> (lines 35 to 52).\<close>

definition ent_step :: "ent \<Rightarrow> st \<Rightarrow> st" where
  "ent_step e s =
     (let span_id = (start_char e, end_char e) in
      if span_id \<in> processed_spans s then s
      else
        let s' = s\<lparr>processed_spans := insert span_id (processed_spans s)\<rparr> in
        if label e = ''PERSON''
        then s'\<lparr>entities := entities s' @ [(span_id, \<lparr>entity = ent_text e, etype = ''Name''\<rparr>)]\<rparr>
        else if label e = ''DATE''
        then s'\<lparr>entities := entities s' @ [(span_id, \<lparr>entity = ent_text e, etype = ''Date''\<rparr>)]\<rparr>
        else if label e = ''MONEY''
        then s'\<lparr>entities := entities s' @ [(span_id, \<lparr>entity = ent_text e, etype = ''MonetaryAmount''\<rparr>)]\<rparr>
        else s')"

text \<open>The body of \<^verbatim>\<open>for match in pattern.finditer(text)\<close> (lines 64 to 77).\<close>

definition match_step :: "rmatch \<Rightarrow> st \<Rightarrow> st" where
  "match_step m s =
     (let sp = (m_start m, m_end m);
          overlap = (\<exists>proc_span \<in> processed_spans s. overlaps sp proc_span)
      in if \<not> overlap
         then s\<lparr>entities := entities s @ [(sp, \<lparr>entity = m_group m, etype = ''LegalTerm''\<rparr>)],
                processed_spans := insert sp (processed_spans s)\<rparr>
         else s)"

text \<open>The two loops of the function, on the entities the pipeline returned.\<close>

definition legal_pass :: "string \<Rightarrow> st \<Rightarrow> st" where
  "legal_pass text s = fold (\<lambda>term s. fold match_step (finditer term text) s) legal_terms s"

definition run_loops :: "ent list \<Rightarrow> string \<Rightarrow> st" where
  "run_loops ents text = legal_pass text (fold ent_step ents init_st)"

definition extract_entities_spans :: "world \<Rightarrow> string \<Rightarrow> error + (span \<times> entity) list" where
  "extract_entities_spans w text =
     (case spacy_load w ''en_core_web_lg'' of
        Inl e \<Rightarrow> Inl e
      | Inr nlp \<Rightarrow>
          (case nlp text of
             Inl e \<Rightarrow> Inl e
           | Inr ents \<Rightarrow> Inr (entities (run_loops ents text))))"

definition extract_entities :: "world \<Rightarrow> string \<Rightarrow> error + entity list" where
  "extract_entities w text = map_sum id (map snd) (extract_entities_spans w text)"

section \<open>extract_custom_entities (custom_ner.py) and extract_all_entities (combined_ner.py)\<close>

definition CUSTOM_ENTITIES :: "string list" where
  "CUSTOM_ENTITIES = [''CLIENT'', ''ASSET'', ''BENEFICIARY'', ''LEGAL_CLAUSE'']"

definition extract_custom_entities_spans :: "nlp \<Rightarrow> string \<Rightarrow> error + (span \<times> entity) list" where
  "extract_custom_entities_spans nlp text =
     (case nlp text of
        Inl e \<Rightarrow> Inl e
      | Inr ents \<Rightarrow>
          Inr (map (\<lambda>e. ((start_char e, end_char e), \<lparr>entity = ent_text e, etype = label e\<rparr>))
                 (filter (\<lambda>e. label e \<in> set CUSTOM_ENTITIES) ents)))"

text \<open>
  Lines 37 to 44, the \<^verbatim>\<open>try\<close>: the custom list stays empty when anything inside raises
  (\<^verbatim>\<open>except Exception\<close> only prints).
\<close>

definition custom_try :: "world \<Rightarrow> string \<Rightarrow> string \<Rightarrow> (span \<times> entity) list" where
  "custom_try w text custom_model_path =
     (case spacy_load w custom_model_path of
        Inl e \<Rightarrow> []
      | Inr custom_nlp \<Rightarrow>
          (case extract_custom_entities_spans custom_nlp text of
             Inl e \<Rightarrow> []
           | Inr custom_entities \<Rightarrow> custom_entities))"

text \<open>
  Lines 33 to 44: \<^verbatim>\<open>custom_model_path.exists()\<close> on line 36 is called before the
  \<^verbatim>\<open>try\<close>, so what it raises leaves the function. The list stays empty when the path does
  not exist.
\<close>

definition custom_part :: "world \<Rightarrow> string \<Rightarrow> string \<Rightarrow> error + (span \<times> entity) list" where
  "custom_part w text custom_model_path =
     (case path_exists w custom_model_path of
        Inl e \<Rightarrow> Inl e
      | Inr exists \<Rightarrow> Inr (if exists then custom_try w text custom_model_path else []))"

definition extract_all_entities_spans ::
  "world \<Rightarrow> string \<Rightarrow> string \<Rightarrow> error + (span \<times> entity) list" where
  "extract_all_entities_spans w text custom_model_path =
     (case extract_entities_spans w text of
        Inl e \<Rightarrow> Inl e
      | Inr standard_entities \<Rightarrow>
          (case custom_part w text custom_model_path of
             Inl e \<Rightarrow> Inl e
           | Inr custom_entities \<Rightarrow> Inr (standard_entities @ custom_entities)))"

definition extract_all_entities :: "world \<Rightarrow> string \<Rightarrow> string \<Rightarrow> error + entity list" where
  "extract_all_entities w text custom_model_path =
     map_sum id (map snd) (extract_all_entities_spans w text custom_model_path)"

text \<open>No two entries of a list of spans overlap (entries at different positions).\<close>

fun no_overlap :: "span list \<Rightarrow> bool" where
  "no_overlap [] = True"
| "no_overlap (s # ss) = ((\<forall>p \<in> set ss. \<not> overlaps s p) \<and> no_overlap ss)"


text \<open>
  What the proofs say about the loops: the span of a statistical entity, the matches of
  all terms in the order the nested loop meets them, and the state after the first \<open>n\<close>
  entities and the first \<open>m\<close> matches.
\<close>

definition ent_span :: "ent \<Rightarrow> span" where
  "ent_span e = (start_char e, end_char e)"

definition all_matches :: "string \<Rightarrow> rmatch list" where
  "all_matches text = concat (map (\<lambda>term. finditer term text) legal_terms)"

definition state_at :: "ent list \<Rightarrow> string \<Rightarrow> nat \<Rightarrow> nat \<Rightarrow> st" where
  "state_at ents text n m =
     fold match_step (take m (all_matches text)) (fold ent_step (take n ents) init_st)"

text \<open>Different spans of a set never overlap.\<close>

definition spans_apart :: "span set \<Rightarrow> bool" where
  "spans_apart P = (\<forall>a \<in> P. \<forall>b \<in> P. a \<noteq> b \<longrightarrow> \<not> overlaps a b)"

definition st_inv :: "st \<Rightarrow> bool" where
  "st_inv s = (spans_apart (processed_spans s)
               \<and> (\<forall>x \<in> set (entities s). fst x \<in> processed_spans s)
               \<and> no_overlap (map fst (entities s)))"

section \<open>The evaluator (evaluation.py)\<close>

text \<open>
  The three scores of scikit-learn on two equally long lists of 0/1 labels, with
  \<^verbatim>\<open>zero_division=0\<close>: a score whose denominator is zero is 0. Python floats are
  modelled by exact rationals.
\<close>

record metrics =
  precision :: rat
  recall :: rat
  f1 :: rat

definition true_positives :: "int list \<Rightarrow> int list \<Rightarrow> nat" where
  "true_positives y_true y_pred = length (filter (\<lambda>(t, p). t = 1 \<and> p = 1) (zip y_true y_pred))"

definition positives :: "int list \<Rightarrow> nat" where
  "positives ys = length (filter (\<lambda>y. y = 1) ys)"

definition precision_score :: "int list \<Rightarrow> int list \<Rightarrow> rat" where
  "precision_score y_true y_pred =
     (if positives y_pred = 0 then 0
      else of_nat (true_positives y_true y_pred) / of_nat (positives y_pred))"

definition recall_score :: "int list \<Rightarrow> int list \<Rightarrow> rat" where
  "recall_score y_true y_pred =
     (if positives y_true = 0 then 0
      else of_nat (true_positives y_true y_pred) / of_nat (positives y_true))"

definition f1_score :: "int list \<Rightarrow> int list \<Rightarrow> rat" where
  "f1_score y_true y_pred =
     (let p = precision_score y_true y_pred; r = recall_score y_true y_pred
      in if p + r = 0 then 0 else 2 * p * r / (p + r))"

definition scores :: "int list \<Rightarrow> int list \<Rightarrow> metrics" where
  "scores y_true y_pred =
     \<lparr>precision = precision_score y_true y_pred,
      recall = recall_score y_true y_pred,
      f1 = f1_score y_true y_pred\<rparr>"

text \<open>
  A Python dict is an association list changed with \<open>AList.update\<close>: a new key goes to
  the end, an old key keeps its place. A Python set is iterated in an order the language
  does not fix; the model takes the order of \<open>remdups\<close>.
\<close>

definition evaluate_predictions :: "entity list \<Rightarrow> entity list \<Rightarrow> (string \<times> metrics) list" where
  "evaluate_predictions true_entities pred_entities =
     (let entity_types = remdups (map etype (true_entities @ pred_entities));
          results =
            fold (\<lambda>entity_type results.
                    let all_entities = remdups (map entity (true_entities @ pred_entities));
                        y_true = map (\<lambda>e. if (\<exists>x \<in> set true_entities. entity x = e \<and> etype x = entity_type)
                                           then 1 else 0) all_entities;
                        y_pred = map (\<lambda>e. if (\<exists>x \<in> set pred_entities. entity x = e \<and> etype x = entity_type)
                                           then 1 else 0) all_entities
                    in if length y_true > 0
                       then AList.update entity_type (scores y_true y_pred) results
                       else results)
                 entity_types [];
          all_entities = remdups (map entity (true_entities @ pred_entities));
          overall_true = map (\<lambda>e. if (\<exists>x \<in> set true_entities. entity x = e) then 1 else 0) all_entities;
          overall_pred = map (\<lambda>e. if (\<exists>x \<in> set pred_entities. entity x = e) then 1 else 0) all_entities
      in AList.update ''overall'' (scores overall_true overall_pred) results)"

record test_case =
  case_text :: string
  case_entities :: "entity list"

record evaluator =
  test_data :: "test_case list"
  results :: "(string \<times> metrics) list"

definition NEREvaluator :: evaluator where
  "NEREvaluator = \<lparr>test_data = [], results = []\<rparr>"

definition add_test_case :: "evaluator \<Rightarrow> string \<Rightarrow> entity list \<Rightarrow> evaluator" where
  "add_test_case self text ents =
     self\<lparr>test_data := test_data self @ [\<lparr>case_text = text, case_entities = ents\<rparr>]\<rparr>"

text \<open>
  \<^verbatim>\<open>all_results[entity_type]\<close> holds one list per metric. The aggregation of one case
  (lines 130 to 138) creates the three lists for a new type and appends the case's values.
\<close>

record score_lists =
  precisions :: "rat list"
  recalls :: "rat list"
  f1s :: "rat list"

definition append_scores :: "metrics \<Rightarrow> score_lists \<Rightarrow> score_lists" where
  "append_scores m l =
     \<lparr>precisions = precisions l @ [precision m],
      recalls = recalls l @ [recall m],
      f1s = f1s l @ [f1 m]\<rparr>"

definition aggregate ::
  "(string \<times> metrics) list \<Rightarrow> (string \<times> score_lists) list \<Rightarrow> (string \<times> score_lists) list" where
  "aggregate case_metrics all_results =
     fold (\<lambda>(entity_type, m) all_results.
             let lists = (case map_of all_results entity_type of
                            None \<Rightarrow> \<lparr>precisions = [], recalls = [], f1s = []\<rparr>
                          | Some l \<Rightarrow> l)
             in AList.update entity_type (append_scores m lists) all_results)
          case_metrics all_results"

text \<open>The lists of a type after further per-case results \<open>ms\<close> have been appended.\<close>

definition lists_of :: "metrics list \<Rightarrow> score_lists \<Rightarrow> score_lists" where
  "lists_of ms l = \<lparr>precisions = precisions l @ map precision ms,
                    recalls = recalls l @ map recall ms,
                    f1s = f1s l @ map f1 ms\<rparr>"

text \<open>\<^verbatim>\<open>sum(values) / len(values)\<close>; the lists of \<^verbatim>\<open>all_results\<close> are never empty.\<close>

definition mean :: "rat list \<Rightarrow> rat" where
  "mean values = sum_list values / of_nat (length values)"

definition average :: "score_lists \<Rightarrow> metrics" where
  "average l = \<lparr>precision = mean (precisions l), recall = mean (recalls l), f1 = mean (f1s l)\<rparr>"

definition collect ::
  "test_case list \<Rightarrow> (string \<Rightarrow> entity list) \<Rightarrow> (string \<times> score_lists) list
   \<Rightarrow> (string \<times> score_lists) list" where
  "collect cases prediction_function all_results =
     fold (\<lambda>tc all_results.
             let pred_entities = prediction_function (case_text tc);
                 case_metrics = evaluate_predictions (case_entities tc) pred_entities
             in aggregate case_metrics all_results)
          cases all_results"

definition evaluate_model ::
  "evaluator \<Rightarrow> (string \<Rightarrow> entity list) \<Rightarrow> (string \<times> metrics) list \<times> evaluator" where
  "evaluate_model self prediction_function =
     (let all_results = collect (test_data self) prediction_function [];
          final_results = map (\<lambda>(entity_type, l). (entity_type, average l)) all_results
      in (final_results, self\<lparr>results := final_results\<rparr>))"

text \<open>
  The claim about the average in the words of the specification: the per-case results in
  which a type appears, in the order of the cases.
\<close>

definition results_with ::
  "test_case list \<Rightarrow> (string \<Rightarrow> entity list) \<Rightarrow> string \<Rightarrow> metrics list" where
  "results_with cases prediction_function k =
     List.map_filter
       (\<lambda>tc. map_of (evaluate_predictions (case_entities tc) (prediction_function (case_text tc))) k)
       cases"

definition mean_over_cases ::
  "test_case list \<Rightarrow> (string \<Rightarrow> entity list) \<Rightarrow> string \<Rightarrow> metrics option" where
  "mean_over_cases cases prediction_function k =
     (let ms = results_with cases prediction_function k
      in if ms = [] then None
         else Some \<lparr>precision = mean (map precision ms),
                    recall = mean (map recall ms),
                    f1 = mean (map f1 ms)\<rparr>)"


section \<open>The dataset file (evaluation.py, load_test_dataset and save_test_dataset)\<close>

text \<open>
  The file system is the set of directories and the map from paths to file contents.
  A path with trailing slashes names the directory without them; beyond that paths are
  compared as written (no \<^verbatim>\<open>.\<close>, \<^verbatim>\<open>..\<close> or doubled slash is resolved). A file holds
  the JSON text of a dataset, which
  \<^verbatim>\<open>json.load\<close> reads back as that dataset, or text that \<^verbatim>\<open>json.load\<close> rejects; a JSON
  document of another shape is outside this model.
\<close>

datatype content = Json "test_case list" | Not_json

record fs =
  dirs :: "string set"
  files :: "string \<rightharpoonup> content"

definition all_slashes :: "string \<Rightarrow> bool" where
  "all_slashes p = (\<forall>c \<in> set p. c = CHR ''/'')"

definition rstrip_slash :: "string \<Rightarrow> string" where
  "rstrip_slash p = rev (dropWhile (\<lambda>c. c = CHR ''/'') (rev p))"

definition ends_with_slash :: "string \<Rightarrow> bool" where
  "ends_with_slash p = (p \<noteq> [] \<and> last p = CHR ''/'')"

text \<open>The name under which a directory is kept: without trailing slashes, the root as it is.\<close>

definition norm_slash :: "string \<Rightarrow> string" where
  "norm_slash p = (if all_slashes p then p else rstrip_slash p)"

text \<open>
  The empty path names nothing: \<^verbatim>\<open>os.path.exists('')\<close> and \<^verbatim>\<open>os.path.isdir('')\<close> are
  false. The root exists. A path that ends with a slash names a directory or nothing.
\<close>

definition os_path_isdir :: "fs \<Rightarrow> string \<Rightarrow> bool" where
  "os_path_isdir f p = (p \<noteq> [] \<and> (all_slashes p \<or> norm_slash p \<in> dirs f))"

definition os_path_exists :: "fs \<Rightarrow> string \<Rightarrow> bool" where
  "os_path_exists f p =
     (p \<noteq> [] \<and> (os_path_isdir f p \<or> (\<not> ends_with_slash p \<and> p \<in> dom (files f))))"

text \<open>
  \<^verbatim>\<open>posixpath.split\<close>: the head is the path up to the last slash, without its trailing
  slashes unless it consists of slashes only; the tail is what follows the last slash.
  \<^verbatim>\<open>os.path.dirname\<close> is the head.
\<close>

definition os_path_split :: "string \<Rightarrow> string \<times> string" where
  "os_path_split p =
     (let head = rev (dropWhile (\<lambda>c. c \<noteq> CHR ''/'') (rev p));
          tail = rev (takeWhile (\<lambda>c. c \<noteq> CHR ''/'') (rev p))
      in (if head \<noteq> [] \<and> \<not> all_slashes head then rstrip_slash head else head, tail))"

definition os_path_dirname :: "string \<Rightarrow> string" where
  "os_path_dirname p = fst (os_path_split p)"

text \<open>
  \<^verbatim>\<open>os.mkdir\<close>: the empty path does not exist, an existing path (a file too, when the
  name is written with a trailing slash) is not made again, and the parent has to be a
  directory (the empty parent is the current directory, a parent of slashes is the root).
\<close>

definition parent_ok :: "fs \<Rightarrow> string \<Rightarrow> error option" where
  "parent_ok f p =
     (let parent = os_path_dirname (rstrip_slash p)
      in if parent = [] \<or> all_slashes parent \<or> parent \<in> dirs f then None
         else if parent \<in> dom (files f) then Some NotADirectoryError
         else Some FileNotFoundError)"

definition os_mkdir :: "string \<Rightarrow> fs \<Rightarrow> error + fs" where
  "os_mkdir name f =
     (if name = [] then Inl FileNotFoundError
      else if os_path_exists f name \<or> norm_slash name \<in> dom (files f) then Inl FileExistsError
      else (case parent_ok f name of
              Some e \<Rightarrow> Inl e
            | None \<Rightarrow> Inr (f\<lparr>dirs := insert (norm_slash name) (dirs f)\<rparr>)))"

text \<open>
  The last step of \<^verbatim>\<open>os.makedirs(name, exist_ok=True)\<close>: an error of \<^verbatim>\<open>mkdir\<close> is
  raised again unless \<open>name\<close> is a directory.
\<close>

definition mkdir_exist_ok :: "string \<Rightarrow> fs \<Rightarrow> error option \<times> fs" where
  "mkdir_exist_ok name f =
     (case os_mkdir name f of
        Inl e \<Rightarrow> if os_path_isdir f name then (None, f) else (Some e, f)
      | Inr f' \<Rightarrow> (None, f'))"

text \<open>The head and tail \<^verbatim>\<open>os.makedirs\<close> works with: a second split when the tail is empty.\<close>

definition split2 :: "string \<Rightarrow> string \<times> string" where
  "split2 name =
     (let (head, tail) = os_path_split name
      in if tail = [] then os_path_split head else (head, tail))"

function makedirs :: "string \<Rightarrow> fs \<Rightarrow> error option \<times> fs" where
  "makedirs name f =
     (if fst (split2 name) \<noteq> [] \<and> snd (split2 name) \<noteq> [] \<and> \<not> os_path_exists f (fst (split2 name))
      then (case makedirs (fst (split2 name)) f of
              (Some e, f') \<Rightarrow>
                if e = FileExistsError
                then (if snd (split2 name) = ''.'' then (None, f') else mkdir_exist_ok name f')
                else (Some e, f')
            | (None, f') \<Rightarrow>
                if snd (split2 name) = ''.'' then (None, f') else mkdir_exist_ok name f')
      else mkdir_exist_ok name f)"
  by pat_completeness auto


termination makedirs
proof (relation "measure (\<lambda>(name, f). length name)")
  show "wf (measure (\<lambda>(name, f). length name))" by simp
next
  fix name :: string and f :: fs
  assume a: "fst (split2 name) \<noteq> [] \<and> snd (split2 name) \<noteq> [] \<and> \<not> os_path_exists f (fst (split2 name))"
  have strip: "length (rstrip_slash q) \<le> length q" for q
    using length_dropWhile_le [of "\<lambda>c. c = CHR ''/''" "rev q"] by (simp add: rstrip_slash_def)
  have parts: "length (fst (os_path_split q)) + length (snd (os_path_split q)) \<le> length q" for q
  proof -
    have "length (dropWhile (\<lambda>c. c \<noteq> CHR ''/'') (rev q)) + length (takeWhile (\<lambda>c. c \<noteq> CHR ''/'') (rev q))
          = length q"
      by (metis add.commute length_append length_rev takeWhile_dropWhile_id)
    moreover have "length (rstrip_slash (rev (dropWhile (\<lambda>c. c \<noteq> CHR ''/'') (rev q))))
          \<le> length (dropWhile (\<lambda>c. c \<noteq> CHR ''/'') (rev q))"
      using strip [of "rev (dropWhile (\<lambda>c. c \<noteq> CHR ''/'') (rev q))"] by simp
    ultimately show ?thesis
      by (auto simp: os_path_split_def Let_def)
  qed
  obtain h tl where s: "os_path_split name = (h, tl)" by (cases "os_path_split name")
  have hl: "length h + length tl \<le> length name" using parts [of name] s by simp
  have "length (fst (split2 name)) < length name"
  proof (cases "tl = []")
    case True
    then have e: "split2 name = os_path_split h" by (simp add: split2_def s)
    have "length (fst (os_path_split h)) + length (snd (os_path_split h)) \<le> length h"
      by (rule parts)
    moreover have "length (snd (os_path_split h)) > 0" using a e by simp
    ultimately have "length (fst (os_path_split h)) < length name" using hl by linarith
    then show ?thesis using e by simp
  next
    case False
    then have e: "split2 name = (h, tl)" by (simp add: split2_def s)
    have "length tl > 0" using False by simp
    then have "length h < length name" using hl by linarith
    then show ?thesis using e by simp
  qed
  then show "((fst (split2 name), f), (name, f)) \<in> measure (\<lambda>(name, f). length name)"
    by simp
qed

text \<open>The recursive equation is applied by hand where it is needed.\<close>

declare makedirs.simps [simp del]

text \<open>
  \<^verbatim>\<open>open(path, 'w')\<close> followed by the write, and \<^verbatim>\<open>open(path, 'r')\<close> followed by the read.
  A path that ends with a slash is never opened as a file: for writing the system reports a
  directory once the parent is there, for reading it reports what the name without the
  slash is.
\<close>

definition open_write :: "string \<Rightarrow> content \<Rightarrow> fs \<Rightarrow> error + fs" where
  "open_write path c f =
     (if path = [] then Inl FileNotFoundError
      else if os_path_isdir f path then Inl IsADirectoryError
      else (case parent_ok f path of
              Some e \<Rightarrow> Inl e
            | None \<Rightarrow>
                if ends_with_slash path then Inl IsADirectoryError
                else Inr (f\<lparr>files := (files f)(path \<mapsto> c)\<rparr>)))"

definition open_read :: "string \<Rightarrow> fs \<Rightarrow> error + content" where
  "open_read path f =
     (if path = [] then Inl FileNotFoundError
      else if os_path_isdir f path then Inl IsADirectoryError
      else if ends_with_slash path
      then (if norm_slash path \<in> dom (files f) then Inl NotADirectoryError else Inl FileNotFoundError)
      else (case files f path of
              Some c \<Rightarrow> Inr c
            | None \<Rightarrow> Inl FileNotFoundError))"

text \<open>
  \<^verbatim>\<open>save_test_dataset\<close> (lines 33 to 37) returns the exception it raised, if any, and the
  file system it leaves. \<^verbatim>\<open>load_test_dataset\<close> (lines 14 to 31) does not change the file
  system and returns the evaluator or the exception.
\<close>

definition save_test_dataset :: "evaluator \<Rightarrow> string \<Rightarrow> fs \<Rightarrow> error option \<times> fs" where
  "save_test_dataset self file_path f =
     (case makedirs (os_path_dirname file_path) f of
        (Some e, f') \<Rightarrow> (Some e, f')
      | (None, f') \<Rightarrow>
          (case open_write file_path (Json (test_data self)) f' of
             Inl e \<Rightarrow> (Some e, f')
           | Inr f'' \<Rightarrow> (None, f'')))"

definition load_test_dataset :: "evaluator \<Rightarrow> string \<Rightarrow> fs \<Rightarrow> error + evaluator" where
  "load_test_dataset self file_path f =
     (if os_path_exists f file_path
      then (case open_read file_path f of
              Inl e \<Rightarrow> Inl e
            | Inr c \<Rightarrow>
                (case c of
                   Json d \<Rightarrow> Inr (self\<lparr>test_data := d\<rparr>)
                 | Not_json \<Rightarrow> Inl JSONDecodeError))
      else Inr self)"

section \<open>Concrete inputs\<close>

text \<open>
  A world where both pipelines load. On every text the statistical pipeline finds the
  person at characters 0 to 7, and the custom pipeline a client at the same place and an
  asset at characters 10 to 20.
\<close>

definition ann_lee :: ent where
  "ann_lee = \<lparr>start_char = 0, end_char = 7, label = ''PERSON'', ent_text = ''Ann Lee''\<rparr>"

definition both_world :: world where
  "both_world =
     \<lparr>spacy_load = (\<lambda>name.
        if name = ''en_core_web_lg''
        then Inr (\<lambda>t. Inr [ann_lee])
        else Inr (\<lambda>t. Inr [\<lparr>start_char = 0, end_char = 7, label = ''CLIENT'', ent_text = ''Ann Lee''\<rparr>,
                            \<lparr>start_char = 10, end_char = 20, label = ''ASSET'', ent_text = ''trust fund''\<rparr>])),
      path_exists = (\<lambda>p. Inr True)\<rparr>"

text \<open>What \<^verbatim>\<open>extract_all_entities\<close> returns in that world, with the spans.\<close>

definition both_output :: "(span \<times> entity) list" where
  "both_output =
     [((0, 7), \<lparr>entity = ''Ann Lee'', etype = ''Name''\<rparr>),
      ((10, 15), \<lparr>entity = ''trust'', etype = ''LegalTerm''\<rparr>),
      ((0, 7), \<lparr>entity = ''Ann Lee'', etype = ''CLIENT''\<rparr>),
      ((10, 20), \<lparr>entity = ''trust fund'', etype = ''ASSET''\<rparr>)]"

text \<open>A world where the custom model is on disk but loading it raises.\<close>

definition broken_world :: world where
  "broken_world =
     \<lparr>spacy_load = (\<lambda>name. if name = ''en_core_web_lg'' then Inr (\<lambda>t. Inr [ann_lee]) else Inl OSError),
      path_exists = (\<lambda>p. Inr True)\<rparr>"

text \<open>
  A world where both pipelines would load but nothing exists at any path, and where, as
  on Linux, asking for a path with a name of more than 255 characters is an error
  (\<^verbatim>\<open>OSError\<close>, file name too long).
\<close>

definition absent_world :: world where
  "absent_world =
     \<lparr>spacy_load = (\<lambda>name. Inr (\<lambda>t. Inr [ann_lee])),
      path_exists = (\<lambda>p. if length p > 255 then Inl OSError else Inr False)\<rparr>"

definition long_path :: string where
  "long_path = replicate 300 (CHR ''a'')"

text \<open>A second entity of the statistical pipeline that lies across the first.\<close>

definition lees_trust :: ent where
  "lees_trust = \<lparr>start_char = 4, end_char = 15, label = ''PERSON'', ent_text = ''Lee's trust''\<rparr>"

definition sample_text :: string where
  "sample_text = ''Ann Lee's trust fund''"

text \<open>The scenario of the specification for the scores of one document.\<close>

definition ground_truth :: "entity list" where
  "ground_truth = [\<lparr>entity = ''John Smith'', etype = ''Name''\<rparr>,
                   \<lparr>entity = ''March 15, 2024'', etype = ''Date''\<rparr>]"

definition predicted :: "entity list" where
  "predicted = [\<lparr>entity = ''John Smith'', etype = ''Name''\<rparr>,
                \<lparr>entity = ''March 15'', etype = ''Date''\<rparr>]"

text \<open>
  A dataset of two cases, the second without entities, and a prediction function that
  finds a name only in the second.
\<close>

definition two_cases :: "test_case list" where
  "two_cases = [\<lparr>case_text = ''a'', case_entities = ground_truth\<rparr>,
                \<lparr>case_text = ''b'', case_entities = []\<rparr>]"

definition predict_two :: "string \<Rightarrow> entity list" where
  "predict_two t = (if t = ''a'' then predicted else [])"

text \<open>
  An empty file system, and a dataset with a non-ASCII character (code point 233) in one
  case and an empty entity list in another.
\<close>

definition empty_fs :: fs where
  "empty_fs = \<lparr>dirs = {}, files = Map.empty\<rparr>"

definition cafe_dataset :: "test_case list" where
  "cafe_dataset =
     [\<lparr>case_text = ''Caf'' @ [char_of (233 :: nat)] @ '' owner Ann Lee'',
        case_entities = [\<lparr>entity = ''Ann Lee'', etype = ''Name''\<rparr>]\<rparr>,
      \<lparr>case_text = ''No entities here'', case_entities = []\<rparr>]"



section \<open>The loops of extract_entities\<close>

lemma overlaps_sym: "overlaps a b = overlaps b a"
  by (auto simp: overlaps_def)

lemma no_overlap_snoc:
  "no_overlap (xs @ [x]) = (no_overlap xs \<and> (\<forall>p \<in> set xs. \<not> overlaps p x))"
  by (induction xs) auto

lemma st_inv_init: "st_inv init_st"
  by (simp add: st_inv_def init_st_def spans_apart_def)

lemma match_step_inv:
  assumes "st_inv s"
  shows "st_inv (match_step m s)"
proof (cases "\<exists>p \<in> processed_spans s. overlaps (m_start m, m_end m) p")
  case True
  then show ?thesis using assms by (auto simp: match_step_def Let_def)
next
  case False
  have apart: "spans_apart (insert (m_start m, m_end m) (processed_spans s))"
    using assms False unfolding st_inv_def spans_apart_def by (auto simp: overlaps_sym)
  have fresh: "\<forall>x \<in> set (entities s). \<not> overlaps (fst x) (m_start m, m_end m)"
    using assms False unfolding st_inv_def by (auto simp: overlaps_sym)
  have old: "no_overlap (map fst (entities s))" "\<forall>x \<in> set (entities s). fst x \<in> processed_spans s"
    using assms by (simp_all add: st_inv_def)
  show ?thesis
    using False apart fresh old
    by (simp add: st_inv_def match_step_def Let_def no_overlap_snoc)
qed

lemma fold_match_step_inv: "st_inv s \<Longrightarrow> st_inv (fold match_step ms s)"
  by (induction ms arbitrary: s) (auto simp: match_step_inv)

lemma fold_concat_map: "fold (\<lambda>x. fold f (g x)) xs s = fold f (concat (map g xs)) s"
  by (induction xs arbitrary: s) auto

lemma legal_pass_flat: "legal_pass text s = fold match_step (all_matches text) s"
  by (simp add: legal_pass_def all_matches_def fold_concat_map)

lemma ent_step_spans: "processed_spans (ent_step e s) = insert (ent_span e) (processed_spans s)"
  by (auto simp: ent_step_def Let_def ent_span_def)

lemma fold_ent_step_spans:
  "processed_spans (fold ent_step ents s) = processed_spans s \<union> ent_span ` set ents"
  by (induction ents arbitrary: s) (auto simp: ent_step_spans)

lemma ent_step_inv:
  assumes "st_inv s" and "\<forall>p \<in> processed_spans s. p \<noteq> ent_span e \<longrightarrow> \<not> overlaps (ent_span e) p"
  shows "st_inv (ent_step e s)"
proof (cases "ent_span e \<in> processed_spans s")
  case True
  then show ?thesis using assms(1) by (simp add: ent_step_def ent_span_def)
next
  case False
  have apart: "spans_apart (insert (ent_span e) (processed_spans s))"
    using assms unfolding st_inv_def spans_apart_def by (auto simp: overlaps_sym)
  have fresh: "\<forall>x \<in> set (entities s). \<not> overlaps (fst x) (ent_span e)"
  proof
    fix x assume "x \<in> set (entities s)"
    then have "fst x \<in> processed_spans s" using assms(1) by (simp add: st_inv_def)
    then show "\<not> overlaps (fst x) (ent_span e)"
      using assms(2) False by (auto simp: overlaps_sym)
  qed
  have old: "no_overlap (map fst (entities s))" "\<forall>x \<in> set (entities s). fst x \<in> processed_spans s"
    using assms(1) by (simp_all add: st_inv_def)
  show ?thesis
    using False apart fresh old
    by (simp add: st_inv_def ent_step_def Let_def ent_span_def no_overlap_snoc)
qed

lemma fold_ent_step_inv:
  assumes "spans_apart S"
  shows "st_inv s \<Longrightarrow> processed_spans s \<subseteq> S \<Longrightarrow> ent_span ` set ents \<subseteq> S
         \<Longrightarrow> st_inv (fold ent_step ents s)"
proof (induction ents arbitrary: s)
  case Nil
  then show ?case by simp
next
  case (Cons e ents)
  have "\<forall>p \<in> processed_spans s. p \<noteq> ent_span e \<longrightarrow> \<not> overlaps (ent_span e) p"
    using assms Cons.prems unfolding spans_apart_def by auto
  then have "st_inv (ent_step e s)" using Cons.prems ent_step_inv by blast
  moreover have "processed_spans (ent_step e s) \<subseteq> S"
    using Cons.prems by (simp add: ent_step_spans)
  ultimately show ?case using Cons.IH Cons.prems by simp
qed

lemma statistical_pass_inv:
  assumes "spans_apart (ent_span ` set ents)"
  shows "st_inv (fold ent_step (take n ents) init_st)"
proof -
  have "ent_span ` set (take n ents) \<subseteq> ent_span ` set ents"
    by (auto dest: in_set_takeD)
  then show ?thesis
    using fold_ent_step_inv [OF assms st_inv_init, of "take n ents"]
    by (simp add: init_st_def)
qed

lemma run_loops_inv:
  assumes "spans_apart (ent_span ` set ents)"
  shows "st_inv (run_loops ents text)"
  using statistical_pass_inv [OF assms, of "length ents"]
  by (simp add: run_loops_def legal_pass_flat fold_match_step_inv)

text \<open>
  What the lexicon pass appends is typed as a legal term and overlaps nothing recorded
  before the pass, whatever the matches and their order.
\<close>

lemma fold_match_step_entities:
  "\<exists>legal. entities (fold match_step ms s) = entities s @ legal
     \<and> (\<forall>x \<in> set legal. etype (snd x) = ''LegalTerm''
                        \<and> (\<forall>p \<in> processed_spans s. \<not> overlaps (fst x) p))"
proof (induction ms arbitrary: s)
  case Nil
  then show ?case by simp
next
  case (Cons m ms)
  obtain legal where l: "entities (fold match_step ms (match_step m s)) = entities (match_step m s) @ legal"
    and p: "\<forall>x \<in> set legal. etype (snd x) = ''LegalTerm''
                        \<and> (\<forall>p \<in> processed_spans (match_step m s). \<not> overlaps (fst x) p)"
    using Cons.IH [of "match_step m s"] by blast
  show ?case
  proof (cases "\<exists>p \<in> processed_spans s. overlaps (m_start m, m_end m) p")
    case True
    then have "match_step m s = s" by (auto simp: match_step_def Let_def)
    then show ?thesis using l p by auto
  next
    case False
    then have e: "entities (match_step m s)
                  = entities s @ [((m_start m, m_end m), \<lparr>entity = m_group m, etype = ''LegalTerm''\<rparr>)]"
      and sp: "processed_spans (match_step m s) = insert (m_start m, m_end m) (processed_spans s)"
      by (simp_all add: match_step_def Let_def)
    have "entities (fold match_step (m # ms) s)
          = entities s @ (((m_start m, m_end m), \<lparr>entity = m_group m, etype = ''LegalTerm''\<rparr>) # legal)"
      using l e by simp
    moreover have "\<forall>x \<in> set (((m_start m, m_end m), \<lparr>entity = m_group m, etype = ''LegalTerm''\<rparr>) # legal).
                      etype (snd x) = ''LegalTerm'' \<and> (\<forall>p \<in> processed_spans s. \<not> overlaps (fst x) p)"
      using p sp False by auto
    ultimately show ?thesis by blast
  qed
qed

lemma all_matches_sample:
  "all_matches sample_text = [\<lparr>m_start = 10, m_end = 15, m_group = ''trust''\<rparr>]"
  by (simp add: all_matches_def sample_text_def legal_terms_def finditer_def match_here_def
        boundary_def nth_opt_def is_word_def lower_def)

lemma run_loops_sample:
  "entities (run_loops [ann_lee] sample_text)
   = [((0, 7), \<lparr>entity = ''Ann Lee'', etype = ''Name''\<rparr>),
      ((10, 15), \<lparr>entity = ''trust'', etype = ''LegalTerm''\<rparr>)]"
  by (simp add: run_loops_def legal_pass_flat all_matches_sample init_st_def ent_step_def
        match_step_def overlaps_def ann_lee_def Let_def)

lemma custom_part_both:
  "custom_part both_world sample_text ''models/custom_ner''
   = Inr [((0, 7), \<lparr>entity = ''Ann Lee'', etype = ''CLIENT''\<rparr>),
          ((10, 20), \<lparr>entity = ''trust fund'', etype = ''ASSET''\<rparr>)]"
  by (simp add: custom_part_def custom_try_def both_world_def extract_custom_entities_spans_def
        CUSTOM_ENTITIES_def)

lemma both_world_output:
  "extract_all_entities_spans both_world sample_text ''models/custom_ner'' = Inr both_output"
proof -
  have s: "extract_entities_spans both_world sample_text
           = Inr [((0, 7), \<lparr>entity = ''Ann Lee'', etype = ''Name''\<rparr>),
                  ((10, 15), \<lparr>entity = ''trust'', etype = ''LegalTerm''\<rparr>)]"
    by (simp add: extract_entities_spans_def both_world_def run_loops_sample)
  show ?thesis
    by (simp add: extract_all_entities_spans_def s custom_part_both both_output_def)
qed

text \<open>
  C1, as stated: no two entities returned by \<^verbatim>\<open>extract_all_entities\<close> have overlapping
  spans. It fails: the client found by the custom model lies on the span of the person found
  by the statistical model, and both are returned.
\<close>

theorem merge_overlap_counterexample:
  "extract_all_entities_spans both_world sample_text ''models/custom_ner'' = Inr both_output
   \<and> \<not> no_overlap (map fst both_output)"
  by (simp add: both_world_output) (simp add: both_output_def overlaps_def)

text \<open>
  C1, amended: when the spans of \<^verbatim>\<open>doc.ents\<close> do not overlap one another (spaCy keeps
  them so), no two entities that \<^verbatim>\<open>extract_entities\<close> returns have overlapping spans,
  and \<^verbatim>\<open>extract_all_entities\<close> returns these entities followed by those of the custom
  model, which are appended without any overlap check. (It returns unless the test whether
  the model path exists raises; then it raises the same.)
\<close>

theorem standard_part_no_overlap:
  assumes "spacy_load w ''en_core_web_lg'' = Inr nlp" and "nlp text = Inr ents"
    and "spans_apart (ent_span ` set ents)"
  shows "extract_entities_spans w text = Inr (entities (run_loops ents text))
         \<and> no_overlap (map fst (entities (run_loops ents text)))
         \<and> extract_all_entities_spans w text custom_model_path
             = (case custom_part w text custom_model_path of
                  Inl e \<Rightarrow> Inl e
                | Inr custom_entities \<Rightarrow> Inr (entities (run_loops ents text) @ custom_entities))"
  using assms(1) assms(2) run_loops_inv [OF assms(3)]
  by (simp add: extract_entities_spans_def extract_all_entities_spans_def st_inv_def)

theorem standard_part_no_overlap_witness:
  "spans_apart (ent_span ` set [ann_lee])
   \<and> extract_entities_spans both_world sample_text = Inr (entities (run_loops [ann_lee] sample_text))
   \<and> no_overlap (map fst (entities (run_loops [ann_lee] sample_text)))
   \<and> extract_all_entities_spans both_world sample_text ''models/custom_ner''
       = Inr (entities (run_loops [ann_lee] sample_text)
              @ [((0, 7), \<lparr>entity = ''Ann Lee'', etype = ''CLIENT''\<rparr>),
                 ((10, 20), \<lparr>entity = ''trust fund'', etype = ''ASSET''\<rparr>)])"
proof -
  have a: "spacy_load both_world ''en_core_web_lg'' = Inr (\<lambda>t. Inr [ann_lee])"
    by (simp add: both_world_def)
  have c: "spans_apart (ent_span ` set [ann_lee])" by (simp add: spans_apart_def)
  show ?thesis
    using a c
      standard_part_no_overlap [of both_world "\<lambda>t. Inr [ann_lee]" sample_text "[ann_lee]"
        "''models/custom_ner''"]
    by (simp add: custom_part_both)
qed

text \<open>
  C2, as stated: of two overlapping candidates from different sources only the one from the
  source of higher priority is returned, in the order statistical, domain-trained, lexicon.
  It fails: the client of the custom model is returned although it lies on the person of
  the statistical model, and the legal term of the lexicon is returned although it lies
  inside the asset of the custom model.
\<close>

theorem priority_counterexample:
  "extract_all_entities both_world sample_text ''models/custom_ner'' = Inr (map snd both_output)
   \<and> ((0, 7), \<lparr>entity = ''Ann Lee'', etype = ''Name''\<rparr>) \<in> set both_output
   \<and> ((0, 7), \<lparr>entity = ''Ann Lee'', etype = ''CLIENT''\<rparr>) \<in> set both_output
   \<and> overlaps (0, 7) (0, 7)
   \<and> ((10, 15), \<lparr>entity = ''trust'', etype = ''LegalTerm''\<rparr>) \<in> set both_output
   \<and> ((10, 20), \<lparr>entity = ''trust fund'', etype = ''ASSET''\<rparr>) \<in> set both_output
   \<and> overlaps (10, 20) (10, 15)"
  by (simp add: extract_all_entities_def both_world_output) (simp add: both_output_def overlaps_def)

text \<open>
  C2, amended: the output is the entities of the statistical recognizer, then legal terms,
  then all entities of the custom model. No legal term in it overlaps a span that the
  statistical recognizer reported, whatever the matches and their order; the entities of the
  custom model are appended without a comparison with any other span. (There is an output
  unless the test whether the model path exists raises; then the function raises the same.)
\<close>

theorem lexicon_yields_custom_appended:
  assumes "spacy_load w ''en_core_web_lg'' = Inr nlp" and "nlp text = Inr ents"
  shows "\<exists>legal.
           extract_entities_spans w text = Inr (entities (fold ent_step ents init_st) @ legal)
           \<and> extract_all_entities_spans w text custom_model_path
               = (case custom_part w text custom_model_path of
                    Inl e \<Rightarrow> Inl e
                  | Inr custom_entities \<Rightarrow>
                      Inr (entities (fold ent_step ents init_st) @ legal @ custom_entities))
           \<and> (\<forall>x \<in> set legal. etype (snd x) = ''LegalTerm''
                              \<and> (\<forall>e \<in> set ents. \<not> overlaps (fst x) (ent_span e)))"
proof -
  obtain legal where l: "entities (fold match_step (all_matches text) (fold ent_step ents init_st))
                         = entities (fold ent_step ents init_st) @ legal"
    and p: "\<forall>x \<in> set legal. etype (snd x) = ''LegalTerm''
              \<and> (\<forall>p \<in> processed_spans (fold ent_step ents init_st). \<not> overlaps (fst x) p)"
    using fold_match_step_entities [of "all_matches text" "fold ent_step ents init_st"] by blast
  have s: "extract_entities_spans w text = Inr (entities (fold ent_step ents init_st) @ legal)"
    using assms l
    by (simp add: extract_entities_spans_def run_loops_def legal_pass_flat)
  have "extract_all_entities_spans w text custom_model_path
          = (case custom_part w text custom_model_path of
               Inl e \<Rightarrow> Inl e
             | Inr custom_entities \<Rightarrow>
                 Inr (entities (fold ent_step ents init_st) @ legal @ custom_entities))"
    by (simp add: extract_all_entities_spans_def s split: sum.splits)
  moreover have "\<forall>x \<in> set legal. etype (snd x) = ''LegalTerm''
                              \<and> (\<forall>e \<in> set ents. \<not> overlaps (fst x) (ent_span e))"
    using p by (simp add: fold_ent_step_spans)
  ultimately show ?thesis using s by blast
qed

theorem lexicon_yields_custom_appended_witness:
  "\<exists>legal.
     extract_entities_spans both_world sample_text = Inr (entities (fold ent_step [ann_lee] init_st) @ legal)
     \<and> extract_all_entities_spans both_world sample_text ''models/custom_ner''
         = Inr (entities (fold ent_step [ann_lee] init_st) @ legal
                @ [((0, 7), \<lparr>entity = ''Ann Lee'', etype = ''CLIENT''\<rparr>),
                   ((10, 20), \<lparr>entity = ''trust fund'', etype = ''ASSET''\<rparr>)])
     \<and> (\<forall>x \<in> set legal. etype (snd x) = ''LegalTerm''
                        \<and> (\<forall>e \<in> set [ann_lee]. \<not> overlaps (fst x) (ent_span e)))"
proof -
  have a: "spacy_load both_world ''en_core_web_lg'' = Inr (\<lambda>t. Inr [ann_lee])"
    by (simp add: both_world_def)
  show ?thesis
    using a lexicon_yields_custom_appended [of both_world "\<lambda>t. Inr [ann_lee]" sample_text "[ann_lee]"
        "''models/custom_ner''"]
    by (simp add: custom_part_both)
qed

text \<open>
  When the test on line 36 says that the custom model path does not exist, or says that it
  exists and \<^verbatim>\<open>spacy.load\<close> raises on it, the custom list is empty and
  \<^verbatim>\<open>extract_all_entities\<close> returns what \<^verbatim>\<open>extract_entities\<close> returns, raising only if
  that raises.
\<close>

lemma soft_degrade:
  assumes "path_exists w custom_model_path = Inr False
           \<or> (path_exists w custom_model_path = Inr True \<and> (\<exists>e. spacy_load w custom_model_path = Inl e))"
  shows "custom_part w text custom_model_path = Inr []
         \<and> extract_all_entities w text custom_model_path = extract_entities w text"
proof -
  have c: "custom_part w text custom_model_path = Inr []"
    using assms by (auto simp: custom_part_def custom_try_def)
  then show ?thesis
    by (cases "extract_entities_spans w text")
       (simp_all add: extract_all_entities_def extract_all_entities_spans_def extract_entities_def)
qed

lemma standard_sample:
  "extract_entities broken_world sample_text
     = Inr [\<lparr>entity = ''Ann Lee'', etype = ''Name''\<rparr>, \<lparr>entity = ''trust'', etype = ''LegalTerm''\<rparr>]
   \<and> extract_entities absent_world sample_text
     = Inr [\<lparr>entity = ''Ann Lee'', etype = ''Name''\<rparr>, \<lparr>entity = ''trust'', etype = ''LegalTerm''\<rparr>]"
  by (simp add: extract_entities_def extract_entities_spans_def broken_world_def absent_world_def
        run_loops_sample)

lemma soft_degrade_examples:
  "path_exists broken_world ''models/custom_ner'' = Inr True
   \<and> spacy_load broken_world ''models/custom_ner'' = Inl OSError
   \<and> extract_all_entities broken_world sample_text ''models/custom_ner''
       = Inr [\<lparr>entity = ''Ann Lee'', etype = ''Name''\<rparr>, \<lparr>entity = ''trust'', etype = ''LegalTerm''\<rparr>]
   \<and> path_exists absent_world ''models/custom_ner'' = Inr False
   \<and> extract_all_entities absent_world sample_text ''models/custom_ner''
       = Inr [\<lparr>entity = ''Ann Lee'', etype = ''Name''\<rparr>, \<lparr>entity = ''trust'', etype = ''LegalTerm''\<rparr>]"
proof -
  have l: "path_exists broken_world ''models/custom_ner'' = Inr True"
    "spacy_load broken_world ''models/custom_ner'' = Inl OSError"
    by (simp_all add: broken_world_def)
  have n: "path_exists absent_world ''models/custom_ner'' = Inr False"
    by (simp add: absent_world_def)
  show ?thesis
    using l n standard_sample
      soft_degrade [of broken_world "''models/custom_ner''" sample_text]
      soft_degrade [of absent_world "''models/custom_ner''" sample_text]
    by simp
qed

text \<open>
  C8 at a model path whose name has 300 characters: no model is there, the test whether
  the path exists raises before the \<^verbatim>\<open>try\<close> is entered, and \<^verbatim>\<open>extract_all_entities\<close>
  raises instead of returning the entities of the statistical and lexicon pass.
\<close>

theorem absent_model_path_raises:
  "path_exists absent_world long_path = Inl OSError
   \<and> extract_entities absent_world sample_text
       = Inr [\<lparr>entity = ''Ann Lee'', etype = ''Name''\<rparr>, \<lparr>entity = ''trust'', etype = ''LegalTerm''\<rparr>]
   \<and> extract_all_entities absent_world sample_text long_path = Inl OSError"
proof -
  have p: "path_exists absent_world long_path = Inl OSError"
    by (simp add: absent_world_def long_path_def)
  have s: "extract_entities_spans absent_world sample_text
           = Inr (entities (run_loops [ann_lee] sample_text))"
    by (simp add: extract_entities_spans_def absent_world_def)
  have "extract_all_entities absent_world sample_text long_path = Inl OSError"
    by (simp add: extract_all_entities_def extract_all_entities_spans_def s custom_part_def p)
  then show ?thesis using p standard_sample by simp
qed

text \<open>
  C9, as stated: the recorded spans are pairwise non-overlapping at every step. It fails
  when two entities of \<^verbatim>\<open>doc.ents\<close> lie across each other: the first loop compares spans
  for equality only and records both.
\<close>

theorem statistical_spans_overlap_counterexample:
  "(0, 7) \<in> processed_spans (state_at [ann_lee, lees_trust] sample_text 2 0)
   \<and> (4, 15) \<in> processed_spans (state_at [ann_lee, lees_trust] sample_text 2 0)
   \<and> overlaps (0, 7) (4, 15)
   \<and> \<not> spans_apart (processed_spans (state_at [ann_lee, lees_trust] sample_text 2 0))
   \<and> entities (state_at [ann_lee, lees_trust] sample_text 2 0)
       = [((0, 7), \<lparr>entity = ''Ann Lee'', etype = ''Name''\<rparr>),
          ((4, 15), \<lparr>entity = ''Lee's trust'', etype = ''Name''\<rparr>)]"
proof -
  have s: "state_at [ann_lee, lees_trust] sample_text 2 0
           = \<lparr>entities = [((0, 7), \<lparr>entity = ''Ann Lee'', etype = ''Name''\<rparr>),
                          ((4, 15), \<lparr>entity = ''Lee's trust'', etype = ''Name''\<rparr>)],
              processed_spans = {(4, 15), (0, 7)}\<rparr>"
    by (simp add: state_at_def init_st_def ent_step_def ann_lee_def lees_trust_def Let_def)
  show ?thesis
    unfolding s by (simp add: spans_apart_def overlaps_def)
qed

text \<open>
  C9, amended: when the spans of \<^verbatim>\<open>doc.ents\<close> do not overlap one another (spaCy keeps
  them so), different recorded spans never overlap, after any number of entities and
  matches. In every case an entity whose span is already recorded changes nothing, and a
  match is appended, and its span recorded, exactly when its span overlaps no recorded
  span, those of earlier matches included.
\<close>

theorem recorded_spans_apart:
  "(spans_apart (ent_span ` set ents) \<longrightarrow> spans_apart (processed_spans (state_at ents text n m)))
   \<and> (ent_span e \<in> processed_spans s \<longrightarrow> ent_step e s = s)
   \<and> entities (match_step mt s)
       = (if \<exists>p \<in> processed_spans s. overlaps (m_start mt, m_end mt) p
          then entities s
          else entities s @ [((m_start mt, m_end mt), \<lparr>entity = m_group mt, etype = ''LegalTerm''\<rparr>)])
   \<and> processed_spans (match_step mt s)
       = (if \<exists>p \<in> processed_spans s. overlaps (m_start mt, m_end mt) p
          then processed_spans s
          else insert (m_start mt, m_end mt) (processed_spans s))"
proof -
  have "spans_apart (processed_spans (state_at ents text n m))"
    if a: "spans_apart (ent_span ` set ents)"
  proof -
    have "st_inv (state_at ents text n m)"
      unfolding state_at_def
      by (intro fold_match_step_inv statistical_pass_inv a)
    then show ?thesis by (simp add: st_inv_def)
  qed
  moreover have "ent_span e \<in> processed_spans s \<longrightarrow> ent_step e s = s"
    by (simp add: ent_step_def ent_span_def)
  ultimately show ?thesis
    by (auto simp: match_step_def Let_def)
qed

lemma state_at_sample_1_0:
  "state_at [ann_lee] sample_text 1 0
   = \<lparr>entities = [((0, 7), \<lparr>entity = ''Ann Lee'', etype = ''Name''\<rparr>)], processed_spans = {(0, 7)}\<rparr>"
  by (simp add: state_at_def init_st_def ent_step_def ann_lee_def Let_def)

theorem recorded_spans_apart_witness:
  "spans_apart (ent_span ` set [ann_lee])
   \<and> spans_apart (processed_spans (state_at [ann_lee] sample_text 1 1))
   \<and> ent_span ann_lee \<in> processed_spans (state_at [ann_lee] sample_text 1 0)
   \<and> ent_step ann_lee (state_at [ann_lee] sample_text 1 0) = state_at [ann_lee] sample_text 1 0
   \<and> entities (match_step \<lparr>m_start = 4, m_end = 9, m_group = ''Lee's''\<rparr> (state_at [ann_lee] sample_text 1 0))
       = entities (state_at [ann_lee] sample_text 1 0)
   \<and> entities (match_step \<lparr>m_start = 10, m_end = 15, m_group = ''trust''\<rparr> (state_at [ann_lee] sample_text 1 0))
       = entities (state_at [ann_lee] sample_text 1 0)
         @ [((10, 15), \<lparr>entity = ''trust'', etype = ''LegalTerm''\<rparr>)]"
proof -
  have h: "spans_apart (ent_span ` set [ann_lee])" by (simp add: spans_apart_def)
  have i: "ent_span ann_lee \<in> processed_spans (state_at [ann_lee] sample_text 1 0)"
    unfolding state_at_sample_1_0 by (simp add: ent_span_def ann_lee_def)
  have o1: "\<exists>p \<in> processed_spans (state_at [ann_lee] sample_text 1 0).
              overlaps (m_start \<lparr>m_start = 4, m_end = 9, m_group = ''Lee's''\<rparr>,
                        m_end \<lparr>m_start = 4, m_end = 9, m_group = ''Lee's''\<rparr>) p"
    unfolding state_at_sample_1_0 by (simp add: overlaps_def)
  have o2: "\<not> (\<exists>p \<in> processed_spans (state_at [ann_lee] sample_text 1 0).
              overlaps (m_start \<lparr>m_start = 10, m_end = 15, m_group = ''trust''\<rparr>,
                        m_end \<lparr>m_start = 10, m_end = 15, m_group = ''trust''\<rparr>) p)"
    unfolding state_at_sample_1_0 by (simp add: overlaps_def)
  show ?thesis
    using h i o1 o2
      recorded_spans_apart [of "[ann_lee]" sample_text 1 1 ann_lee "state_at [ann_lee] sample_text 1 0"
        "\<lparr>m_start = 4, m_end = 9, m_group = ''Lee's''\<rparr>"]
      recorded_spans_apart [of "[ann_lee]" sample_text 1 1 ann_lee "state_at [ann_lee] sample_text 1 0"
        "\<lparr>m_start = 10, m_end = 15, m_group = ''trust''\<rparr>"]
    by simp
qed

section \<open>Scores\<close>

lemma distinct_fold_update:
  "distinct (map fst acc) \<Longrightarrow>
   distinct (map fst (fold (\<lambda>k r. if P k then AList.update k (g k) r else r) ks acc))"
  by (induction ks arbitrary: acc) (auto simp: distinct_update)

lemma evaluate_predictions_distinct: "distinct (map fst (evaluate_predictions t p))"
  unfolding evaluate_predictions_def Let_def
  by (intro distinct_update distinct_fold_update) simp

lemma map_of_aggregate:
  "distinct (map fst ms) \<Longrightarrow>
   map_of (aggregate ms acc) k =
     (case map_of ms k of
        None \<Rightarrow> map_of acc k
      | Some m \<Rightarrow> Some (append_scores m (case map_of acc k of
                                            None \<Rightarrow> \<lparr>precisions = [], recalls = [], f1s = []\<rparr>
                                          | Some l \<Rightarrow> l)))"
proof (induction ms arbitrary: acc)
  case Nil
  then show ?case by (simp add: aggregate_def)
next
  case (Cons a ms)
  obtain t m where a: "a = (t, m)" by (cases a)
  let ?acc' = "AList.update t (append_scores m (case map_of acc t of
                   None \<Rightarrow> \<lparr>precisions = [], recalls = [], f1s = []\<rparr> | Some l \<Rightarrow> l)) acc"
  have step: "aggregate (a # ms) acc = aggregate ms ?acc'"
    by (simp add: aggregate_def a)
  have d: "distinct (map fst ms)" and nt: "t \<notin> fst ` set ms"
    using Cons.prems by (auto simp: a)
  have none: "k = t \<Longrightarrow> map_of ms k = None"
    using nt by (simp add: map_of_eq_None_iff)
  show ?case
    unfolding step Cons.IH [OF d]
    using none by (auto simp: a update_conv' split: option.splits)
qed

lemma map_of_collect:
  "map_of (collect cases pf acc) k =
     (let ms = results_with cases pf k in
      case map_of acc k of
        None \<Rightarrow> if ms = [] then None else Some (lists_of ms \<lparr>precisions = [], recalls = [], f1s = []\<rparr>)
      | Some l \<Rightarrow> Some (lists_of ms l))"
proof (induction cases arbitrary: acc)
  case Nil
  then show ?case
    by (auto simp: collect_def results_with_def map_filter_simps lists_of_def split: option.splits)
next
  case (Cons tc cases)
  let ?r = "evaluate_predictions (case_entities tc) (pf (case_text tc))"
  have step: "collect (tc # cases) pf acc = collect cases pf (aggregate ?r acc)"
    by (simp add: collect_def Let_def)
  have rw: "results_with (tc # cases) pf k =
              (case map_of ?r k of None \<Rightarrow> results_with cases pf k
               | Some m \<Rightarrow> m # results_with cases pf k)"
    by (simp add: results_with_def map_filter_simps split: option.splits)
  show ?case
    unfolding step Cons.IH rw map_of_aggregate [OF evaluate_predictions_distinct]
    by (auto simp: Let_def lists_of_def append_scores_def split: option.splits)
qed

text \<open>No list of \<^verbatim>\<open>all_results\<close> is empty, so the division by its length is defined.\<close>

lemma collect_lists_nonempty:
  assumes "map_of (collect cases pf []) k = Some l"
  shows "precisions l \<noteq> [] \<and> recalls l \<noteq> [] \<and> f1s l \<noteq> []"
  using assms by (auto simp: map_of_collect Let_def lists_of_def split: if_splits)

text \<open>
  C4: on the scenario, type Name scores 1, 1, 1, type Date scores 0, 0, 0, and the overall
  entry scores 1/2, 1/2, 1/2.
\<close>

theorem evaluate_predictions_scenario:
  "map_of (evaluate_predictions ground_truth predicted) ''Name'' = Some \<lparr>precision = 1, recall = 1, f1 = 1\<rparr>
   \<and> map_of (evaluate_predictions ground_truth predicted) ''Date'' = Some \<lparr>precision = 0, recall = 0, f1 = 0\<rparr>
   \<and> map_of (evaluate_predictions ground_truth predicted) ''overall''
       = Some \<lparr>precision = 1 / 2, recall = 1 / 2, f1 = 1 / 2\<rparr>"
  by (simp add: evaluate_predictions_def ground_truth_def predicted_def Let_def scores_def
        precision_score_def recall_score_def f1_score_def true_positives_def positives_def)

text \<open>
  C5: on two empty lists the result is exactly the overall entry with the three scores 0.
\<close>

theorem evaluate_predictions_empty:
  "evaluate_predictions [] [] = [(''overall'', \<lparr>precision = 0, recall = 0, f1 = 0\<rparr>)]"
  by (simp add: evaluate_predictions_def Let_def scores_def
        precision_score_def recall_score_def f1_score_def true_positives_def positives_def)

text \<open>
  C7: for every key, the final result of \<^verbatim>\<open>evaluate_model\<close> is absent when no case's
  result has the key, and otherwise the mean of each metric over exactly the cases whose
  result has it.
\<close>

theorem evaluate_model_mean_over_cases:
  "map_of (fst (evaluate_model self prediction_function)) k
   = mean_over_cases (test_data self) prediction_function k"
proof -
  have "map_of (fst (evaluate_model self prediction_function)) k
        = map_option average (map_of (collect (test_data self) prediction_function []) k)"
    by (simp add: evaluate_model_def Let_def map_of_map)
  also have "\<dots> = mean_over_cases (test_data self) prediction_function k"
    by (simp add: map_of_collect mean_over_cases_def Let_def average_def lists_of_def)
  finally show ?thesis .
qed

lemma scenario_result:
  "evaluate_predictions ground_truth predicted
   = [(''Name'', \<lparr>precision = 1, recall = 1, f1 = 1\<rparr>),
      (''Date'', \<lparr>precision = 0, recall = 0, f1 = 0\<rparr>),
      (''overall'', \<lparr>precision = 1 / 2, recall = 1 / 2, f1 = 1 / 2\<rparr>)]"
  by (simp add: evaluate_predictions_def ground_truth_def predicted_def Let_def scores_def
        precision_score_def recall_score_def f1_score_def true_positives_def positives_def)

lemma empty_result:
  "evaluate_predictions [] [] = [(''overall'', \<lparr>precision = 0, recall = 0, f1 = 0\<rparr>)]"
  by (simp add: evaluate_predictions_def Let_def scores_def
        precision_score_def recall_score_def f1_score_def true_positives_def positives_def)

lemma results_with_two_cases:
  "results_with two_cases predict_two ''Name'' = [\<lparr>precision = 1, recall = 1, f1 = 1\<rparr>]
   \<and> results_with two_cases predict_two ''overall''
       = [\<lparr>precision = 1 / 2, recall = 1 / 2, f1 = 1 / 2\<rparr>, \<lparr>precision = 0, recall = 0, f1 = 0\<rparr>]"
  by (simp add: results_with_def two_cases_def predict_two_def map_filter_simps
        scenario_result empty_result)

theorem evaluate_model_mean_over_cases_witness:
  "map_of (fst (evaluate_model \<lparr>test_data = two_cases, results = []\<rparr> predict_two)) ''Name''
     = Some \<lparr>precision = 1, recall = 1, f1 = 1\<rparr>
   \<and> map_of (fst (evaluate_model \<lparr>test_data = two_cases, results = []\<rparr> predict_two)) ''overall''
     = Some \<lparr>precision = 1 / 4, recall = 1 / 4, f1 = 1 / 4\<rparr>"
  using evaluate_model_mean_over_cases [of "\<lparr>test_data = two_cases, results = []\<rparr>" predict_two "''Name''"]
    evaluate_model_mean_over_cases [of "\<lparr>test_data = two_cases, results = []\<rparr>" predict_two "''overall''"]
  by (simp add: mean_over_cases_def results_with_two_cases mean_def)

section \<open>Saving and loading\<close>


lemma dirname_no_slash: "CHR ''/'' \<notin> set p \<Longrightarrow> os_path_dirname p = []"
proof -
  assume a: "CHR ''/'' \<notin> set p"
  then have "dropWhile (\<lambda>c. c \<noteq> CHR ''/'') (rev p) = []"
    by (auto simp: dropWhile_eq_Nil_conv)
  then show ?thesis
    by (simp add: os_path_dirname_def os_path_split_def Let_def)
qed

lemma makedirs_empty: "makedirs [] f = (Some FileNotFoundError, f)"
  by (subst makedirs.simps)
     (simp add: split2_def os_path_split_def mkdir_exist_ok_def os_mkdir_def os_path_isdir_def)

text \<open>
  C3, as stated: loading from a path where no file exists fails with a not-found error.
  It fails: the call returns normally.
\<close>

theorem load_missing_counterexample:
  "load_test_dataset NEREvaluator ''tests/data/test_dataset.json'' empty_fs = Inr NEREvaluator
   \<and> load_test_dataset NEREvaluator ''tests/data/test_dataset.json'' empty_fs \<noteq> Inl FileNotFoundError"
  by (simp add: load_test_dataset_def os_path_exists_def os_path_isdir_def norm_slash_def
        all_slashes_def rstrip_slash_def empty_fs_def)

text \<open>
  C3, amended: loading from a path that does not exist raises nothing and leaves the
  evaluator as it was.
\<close>

theorem load_missing_unchanged:
  assumes "\<not> os_path_exists f file_path"
  shows "load_test_dataset self file_path f = Inr self"
  using assms by (simp add: load_test_dataset_def)

theorem load_missing_unchanged_witness:
  "\<not> os_path_exists empty_fs ''tests/data/test_dataset.json''
   \<and> load_test_dataset \<lparr>test_data = cafe_dataset, results = []\<rparr> ''tests/data/test_dataset.json'' empty_fs
       = Inr \<lparr>test_data = cafe_dataset, results = []\<rparr>"
proof -
  have a: "\<not> os_path_exists empty_fs ''tests/data/test_dataset.json''"
    by (simp add: os_path_exists_def os_path_isdir_def norm_slash_def all_slashes_def
          rstrip_slash_def empty_fs_def)
  show ?thesis
    using a load_missing_unchanged [OF a, of "\<lparr>test_data = cafe_dataset, results = []\<rparr>"] by simp
qed

text \<open>
  C10: saving to a path without a slash raises \<^verbatim>\<open>FileNotFoundError\<close> from
  \<^verbatim>\<open>os.makedirs('')\<close> and leaves the file system unchanged.
\<close>

theorem save_bare_filename_raises:
  assumes "CHR ''/'' \<notin> set file_path"
  shows "save_test_dataset self file_path f = (Some FileNotFoundError, f)"
  using assms by (simp add: save_test_dataset_def dirname_no_slash makedirs_empty)

theorem save_bare_filename_raises_witness:
  "CHR ''/'' \<notin> set ''out.json''
   \<and> save_test_dataset \<lparr>test_data = cafe_dataset, results = []\<rparr> ''out.json'' empty_fs
       = (Some FileNotFoundError, empty_fs)"
proof -
  have a: "CHR ''/'' \<notin> set ''out.json''" by simp
  show ?thesis
    using a save_bare_filename_raises [OF a, of "\<lparr>test_data = cafe_dataset, results = []\<rparr>" empty_fs]
    by simp
qed

text \<open>When the save completes, loading the path gives the dataset back.\<close>

lemma save_then_load:
  assumes "save_test_dataset self file_path f = (None, f')"
  shows "load_test_dataset other file_path f' = Inr (other\<lparr>test_data := test_data self\<rparr>)"
proof -
  obtain r g where m: "makedirs (os_path_dirname file_path) f = (r, g)"
    by (cases "makedirs (os_path_dirname file_path) f")
  have r: "r = None" using assms m by (cases r) (simp_all add: save_test_dataset_def)
  have w: "open_write file_path (Json (test_data self)) g = Inr f'"
    using assms m r by (simp add: save_test_dataset_def split: sum.splits)
  then have ne: "file_path \<noteq> []" and nd: "\<not> os_path_isdir g file_path"
    and ns: "\<not> ends_with_slash file_path"
    and f': "f' = g\<lparr>files := (files g)(file_path \<mapsto> Json (test_data self))\<rparr>"
    by (auto simp: open_write_def split: if_splits option.splits)
  have fl: "files f' file_path = Some (Json (test_data self))" using f' by simp
  have nd': "\<not> os_path_isdir f' file_path" using nd f' by (simp add: os_path_isdir_def)
  have ex: "os_path_exists f' file_path"
    using ne ns fl by (simp add: os_path_exists_def dom_def)
  show ?thesis
    using ne ns nd' ex fl by (simp add: load_test_dataset_def open_read_def)
qed

text \<open>
  C6 at the path \<^verbatim>\<open>out.json\<close>: the save raises and writes nothing, and a new evaluator
  that loads the path afterwards has the empty dataset, not the saved one.
\<close>

theorem save_bare_filename_loses_dataset:
  "save_test_dataset \<lparr>test_data = cafe_dataset, results = []\<rparr> ''out.json'' empty_fs
     = (Some FileNotFoundError, empty_fs)
   \<and> load_test_dataset NEREvaluator ''out.json''
       (snd (save_test_dataset \<lparr>test_data = cafe_dataset, results = []\<rparr> ''out.json'' empty_fs))
     = Inr NEREvaluator
   \<and> test_data NEREvaluator \<noteq> cafe_dataset"
proof -
  have s: "save_test_dataset \<lparr>test_data = cafe_dataset, results = []\<rparr> ''out.json'' empty_fs
     = (Some FileNotFoundError, empty_fs)"
    by (simp add: save_test_dataset_def dirname_no_slash makedirs_empty)
  show ?thesis
    unfolding s
    by (simp add: load_test_dataset_def os_path_exists_def os_path_isdir_def norm_slash_def
          all_slashes_def rstrip_slash_def empty_fs_def NEREvaluator_def cafe_dataset_def)
qed

lemma split_tests_data:
  "split2 ''tests'' = ([], ''tests'') \<and> split2 ''tests/data'' = (''tests'', ''data'')
   \<and> os_path_dirname ''tests/data/out.json'' = ''tests/data''
   \<and> os_path_dirname ''tests/data'' = ''tests'' \<and> os_path_dirname ''tests'' = []"
  by (simp add: split2_def os_path_dirname_def os_path_split_def all_slashes_def rstrip_slash_def Let_def)

lemma makedirs_tests:
  "makedirs ''tests'' \<lparr>dirs = {}, files = Map.empty\<rparr> = (None, \<lparr>dirs = {''tests''}, files = Map.empty\<rparr>)"
  by (subst makedirs.simps)
     (simp add: split_tests_data mkdir_exist_ok_def os_mkdir_def os_path_exists_def parent_ok_def
        os_path_isdir_def norm_slash_def ends_with_slash_def rstrip_slash_def all_slashes_def Let_def)

lemma makedirs_tests_data:
  "makedirs ''tests/data'' \<lparr>dirs = {}, files = Map.empty\<rparr>
   = (None, \<lparr>dirs = {''tests/data'', ''tests''}, files = Map.empty\<rparr>)"
  by (subst makedirs.simps)
     (simp add: split_tests_data makedirs_tests mkdir_exist_ok_def os_mkdir_def
        os_path_exists_def os_path_isdir_def parent_ok_def norm_slash_def ends_with_slash_def
        rstrip_slash_def all_slashes_def Let_def)

lemma save_in_directory:
  "save_test_dataset \<lparr>test_data = cafe_dataset, results = []\<rparr> ''tests/data/out.json'' empty_fs
   = (None, \<lparr>dirs = {''tests/data'', ''tests''}, files = [''tests/data/out.json'' \<mapsto> Json cafe_dataset]\<rparr>)"
  by (simp add: save_test_dataset_def empty_fs_def split_tests_data makedirs_tests_data open_write_def
        os_path_isdir_def parent_ok_def norm_slash_def ends_with_slash_def rstrip_slash_def
        all_slashes_def Let_def)

text \<open>
  A path that ends with a slash names the directory that \<^verbatim>\<open>os.makedirs\<close> has just made:
  \<^verbatim>\<open>open\<close> raises \<^verbatim>\<open>IsADirectoryError\<close> and no file is written.
\<close>

lemma save_to_directory_path:
  "save_test_dataset \<lparr>test_data = cafe_dataset, results = []\<rparr> ''tests/data/'' empty_fs
   = (Some IsADirectoryError, \<lparr>dirs = {''tests/data'', ''tests''}, files = Map.empty\<rparr>)"
proof -
  have d: "os_path_dirname ''tests/data/'' = ''tests/data''"
    by (simp add: os_path_dirname_def os_path_split_def all_slashes_def rstrip_slash_def Let_def)
  show ?thesis
    by (simp add: save_test_dataset_def empty_fs_def d makedirs_tests_data open_write_def
          os_path_isdir_def norm_slash_def rstrip_slash_def all_slashes_def)
qed

lemma save_in_directory_then_load:
  "load_test_dataset NEREvaluator ''tests/data/out.json''
     (snd (save_test_dataset \<lparr>test_data = cafe_dataset, results = []\<rparr> ''tests/data/out.json'' empty_fs))
   = Inr \<lparr>test_data = cafe_dataset, results = []\<rparr>"
  using save_then_load [OF save_in_directory, of NEREvaluator]
  by (simp add: save_in_directory NEREvaluator_def)

end
